theory Spec2Isabelle
  imports Main "HOL-Library.Multiset"
begin

section \<open>K-fold partitioning: the embedding of \<open>preprocessy/resampling/_kfold.py\<close>\<close>

subsection \<open>Python values and exceptions\<close>

text \<open>
  The constructor of \<open>KFold\<close> inspects the dynamic type of its arguments, so
  they are modelled as tagged Python values. \<open>bool\<close> is a subclass of \<open>int\<close> in
  Python: \<open>isinstance(True, numbers.Integral)\<close> holds and \<open>True == 1\<close>.
\<close>

datatype pyval = PyNone | PyBool bool | PyInt int | PyStr string

text \<open>The messages of the \<open>ValueError\<close>s, one constructor per \<open>raise\<close>.\<close>

datatype message =
    Folds_not_integer
  | Folds_too_few
  | Shuffle_not_boolean
  | Random_state_not_integer
  | Random_state_without_shuffle
  | Splits_exceed_samples
  | Negative_dimensions
  | Seed_out_of_range

datatype error = ValueError message | TypeError | ZeroDivisionError | IndexError

text \<open>\<open>isinstance(v, numbers.Integral)\<close> together with the integer the value denotes.\<close>

fun integral :: "pyval \<Rightarrow> int option" where
  "integral (PyBool b) = Some (if b then 1 else 0)"
| "integral (PyInt i) = Some i"
| "integral v = None"

fun isinstance_Integral :: "pyval \<Rightarrow> bool" where
  "isinstance_Integral v = (integral v \<noteq> None)"

fun isinstance_bool :: "pyval \<Rightarrow> bool" where
  "isinstance_bool (PyBool b) = True"
| "isinstance_bool v = False"

text \<open>Truth value of an object, as \<open>if v:\<close> and \<open>not v\<close> compute it.\<close>

fun truth :: "pyval \<Rightarrow> bool" where
  "truth PyNone = False"
| "truth (PyBool b) = b"
| "truth (PyInt i) = (i \<noteq> 0)"
| "truth (PyStr s) = (s \<noteq> [])"

subsection \<open>The partitioner object and its constructor\<close>

text \<open>\<open>__init__\<close> stores its three arguments as they are.\<close>

record KFold =
  n_splits :: pyval
  shuffle :: pyval
  random_state :: pyval

text \<open>
  \<open>KFold.__init__\<close>, lines 36 to 71: five checks in the order of the source, each raising
  \<open>ValueError\<close>, then the three assignments.
\<close>

definition init :: "pyval \<Rightarrow> pyval \<Rightarrow> pyval \<Rightarrow> error + KFold" where
  "init n_splits0 shuffle0 random_state0 =
     (case integral n_splits0 of
        None \<Rightarrow> Inl (ValueError Folds_not_integer)
      | Some k \<Rightarrow>
          if k \<le> 1 then Inl (ValueError Folds_too_few)
          else if \<not> isinstance_bool shuffle0 then Inl (ValueError Shuffle_not_boolean)
          else if \<not> isinstance_Integral random_state0
            then Inl (ValueError Random_state_not_integer)
          else if \<not> truth shuffle0 \<and> random_state0 \<noteq> PyNone
            then Inl (ValueError Random_state_without_shuffle)
          else Inr \<lparr>n_splits = n_splits0, shuffle = shuffle0, random_state = random_state0\<rparr>)"

subsection \<open>The numpy random generator and the program state\<close>

text \<open>
  \<open>np.random.seed\<close> and \<open>np.random.permutation\<close> belong to numpy, not to this
  repository. They act on numpy's process-wide generator state, of an abstract type
  \<open>'g\<close> here: seeding replaces the state, drawing a permutation returns it together
  with the advanced state. How a seed that numpy accepts sets the state, and which
  permutation a state gives, are parameters of the model.
\<close>

record 'g np_random =
  np_random_seed :: "pyval \<Rightarrow> 'g \<Rightarrow> 'g"
  np_random_permutation :: "nat \<Rightarrow> 'g \<Rightarrow> nat list \<times> 'g"

text \<open>
  What numpy documents of them: a permutation of \<open>n\<close> is a rearrangement of
  \<open>0, \<dots>, n - 1\<close>, and seeding with an integer forgets the previous state.
\<close>

definition permutes_range :: "'g np_random \<Rightarrow> bool" where
  "permutes_range rng = (\<forall>n g. mset (fst (np_random_permutation rng n g)) = mset [0..<n])"

definition seed_resets :: "'g np_random \<Rightarrow> bool" where
  "seed_resets rng = (\<forall>v g g'. isinstance_Integral v \<longrightarrow> np_random_seed rng v g = np_random_seed rng v g')"

text \<open>
  \<open>np.random.seed(v)\<close>. numpy does not accept every seed: \<open>None\<close> reseeds from the
  operating system, an integer must lie between 0 and \<open>2**32 - 1\<close>, and for any other
  integer numpy raises \<open>ValueError("Seed must be between 0 and 2**32 - 1")\<close>; a value
  that is neither raises \<open>TypeError\<close>. A seed that is refused leaves the state as it was.
\<close>

definition seed_accepted :: "pyval \<Rightarrow> bool" where
  "seed_accepted v =
     (v = PyNone \<or> (case integral v of None \<Rightarrow> False | Some i \<Rightarrow> 0 \<le> i \<and> i < 2 ^ 32))"

definition np_seed :: "'g np_random \<Rightarrow> pyval \<Rightarrow> 'g \<Rightarrow> error + 'g" where
  "np_seed rng v g =
     (if v = PyNone then Inr (np_random_seed rng v g)
      else case integral v of
             None \<Rightarrow> Inl TypeError
           | Some i \<Rightarrow>
               if i < 0 then Inl (ValueError Seed_out_of_range)
               else if 2 ^ 32 \<le> i then Inl (ValueError Seed_out_of_range)
               else Inr (np_random_seed rng v g))"

text \<open>
  The state a method runs in: the object \<open>self\<close> and numpy's generator state. Every
  method takes the state and returns it, so that what a call leaves unchanged can be
  stated.
\<close>

record 'g state =
  self :: KFold
  np_state :: 'g

text \<open>
  A generator, consumed to its end: the items it yielded, in order, and the
  exception that ended the iteration, if one did.
\<close>

type_synonym 'a generated = "'a list \<times> error option"

subsection \<open>\<open>__iter_test_indices\<close>\<close>

definition arange :: "nat \<Rightarrow> nat list" where
  "arange n = [0..<n]"

text \<open>
  Lines 128 to 131: \<open>np.full(n_splits, n_samples // n_splits)\<close>, then \<open>+= 1\<close> on the
  slice \<open>[: n_samples % n_splits]\<close>.
\<close>

definition fold_sizes :: "nat \<Rightarrow> nat \<Rightarrow> nat list" where
  "fold_sizes k n =
     (let sizes = replicate k (n div k); r = n mod k
      in map Suc (take r sizes) @ drop r sizes)"

text \<open>\<open>xs[start:stop]\<close> for \<open>0 \<le> start\<close>: a slice is clipped to the sequence.\<close>

definition slice :: "'a list \<Rightarrow> nat \<Rightarrow> nat \<Rightarrow> 'a list" where
  "slice xs start stop = take (stop - start) (drop start xs)"

text \<open>
  \<open>mask[idx] = True\<close> for an index array \<open>idx\<close>: numpy raises \<open>IndexError\<close> when an
  index is out of bounds.
\<close>

definition set_mask :: "bool list \<Rightarrow> nat list \<Rightarrow> error + bool list" where
  "set_mask msk idx =
     (if list_all (\<lambda>i. i < length msk) idx
      then Inr (fold (\<lambda>i m. m[i := True]) idx msk)
      else Inl IndexError)"

text \<open>The loop of lines 132 to 138 over \<open>fold_sizes\<close>, yielding one mask per fold.\<close>

fun iter_folds :: "nat list \<Rightarrow> nat \<Rightarrow> nat \<Rightarrow> nat list \<Rightarrow> bool list generated" where
  "iter_folds indices n_samples current [] = ([], None)"
| "iter_folds indices n_samples current (fold_size # rest) =
     (let start = current; stop = current + fold_size
      in case set_mask (replicate n_samples False) (slice indices start stop) of
           Inl e \<Rightarrow> ([], Some e)
         | Inr msk \<Rightarrow>
             (case iter_folds indices n_samples stop rest of
                (masks, e) \<Rightarrow> (msk # masks, e)))"

text \<open>
  \<open>KFold.__iter_test_indices\<close>, lines 108 to 138. The call of line 123 can raise: the
  constructor lets every integer through as \<open>random_state\<close>, numpy does not, and then
  no mask is yielded. After the constructor's checks \<open>n_splits\<close> is an integer above 1;
  what Python does with the other values of the field is written out: \<open>//\<close> on a
  non-number raises \<open>TypeError\<close>, \<open>// 0\<close> raises \<open>ZeroDivisionError\<close>, \<open>np.full\<close> of a
  negative length raises \<open>ValueError\<close>.
\<close>

definition iter_test_indices ::
    "'g np_random \<Rightarrow> nat \<Rightarrow> 'g state \<Rightarrow> bool list generated \<times> 'g state" where
  "iter_test_indices rng n_samples st =
     (case (if truth (shuffle (self st))
            then (case np_seed rng (random_state (self st)) (np_state st) of
                    Inl e \<Rightarrow> Inl e
                  | Inr g0 \<Rightarrow> Inr (np_random_permutation rng n_samples g0))
            else Inr (arange n_samples, np_state st)) of
        Inl e \<Rightarrow> (([], Some e), st)
      | Inr (indices, g) \<Rightarrow>
          (case integral (n_splits (self st)) of
             None \<Rightarrow> (([], Some TypeError), st\<lparr>np_state := g\<rparr>)
           | Some k \<Rightarrow>
               if k = 0 then (([], Some ZeroDivisionError), st\<lparr>np_state := g\<rparr>)
               else if k < 0 then (([], Some (ValueError Negative_dimensions)), st\<lparr>np_state := g\<rparr>)
               else (iter_folds indices n_samples 0 (fold_sizes (nat k) n_samples),
                     st\<lparr>np_state := g\<rparr>)))"

subsection \<open>\<open>split\<close> and \<open>get_n_splits\<close>\<close>

text \<open>\<open>xs[mask]\<close> for a boolean mask: the elements at the positions where it is true.\<close>

definition mask_select :: "'a list \<Rightarrow> bool list \<Rightarrow> 'a list" where
  "mask_select xs msk = map fst (filter snd (zip xs msk))"

text \<open>
  \<open>KFold.split\<close>, lines 73 to 106. The dataset \<open>X\<close> enters only through
  \<open>num_of_samples(X)\<close>, the argument \<open>n_samples\<close> here; \<open>y\<close> is not used.
  Comparing a non-number with \<open>n_samples\<close> raises \<open>TypeError\<close>.
\<close>

definition split ::
    "'g np_random \<Rightarrow> nat \<Rightarrow> 'g state \<Rightarrow> (nat list \<times> nat list) generated \<times> 'g state" where
  "split rng n_samples st =
     (case integral (n_splits (self st)) of
        None \<Rightarrow> (([], Some TypeError), st)
      | Some k \<Rightarrow>
          if k > int n_samples then (([], Some (ValueError Splits_exceed_samples)), st)
          else
            (let indices = arange n_samples
             in case iter_test_indices rng n_samples st of
                  ((masks, e), st') \<Rightarrow>
                    ((map (\<lambda>test_indices.
                             (mask_select indices (map Not test_indices),
                              mask_select indices test_indices)) masks, e), st')))"

text \<open>\<open>KFold.get_n_splits\<close>, lines 140 to 148.\<close>

definition get_n_splits :: "'g state \<Rightarrow> pyval \<times> 'g state" where
  "get_n_splits st = (n_splits (self st), st)"


subsection \<open>Notions used in the proofs\<close>

text \<open>
  The base order \<open>indices\<close> that \<open>__iter_test_indices\<close> walks over (lines 122 to 126)
  when numpy accepts the seed.
\<close>

definition base_order :: "'g np_random \<Rightarrow> nat \<Rightarrow> 'g state \<Rightarrow> nat list" where
  "base_order rng n_samples st =
     fst (if truth (shuffle (self st))
          then np_random_permutation rng n_samples
                 (np_random_seed rng (random_state (self st)) (np_state st))
          else (arange n_samples, np_state st))"

text \<open>The consecutive slices \<open>indices[start:stop]\<close> that the loop takes, one per fold size.\<close>

fun chunks :: "'a list \<Rightarrow> nat \<Rightarrow> nat list \<Rightarrow> 'a list list" where
  "chunks xs current [] = []"
| "chunks xs current (s # ss) = slice xs current (current + s) # chunks xs (current + s) ss"


text \<open>
  A small generator to run the model on: seeding with an integer \<open>i\<close> sets the state to
  \<open>|i|\<close>, and a permutation is the reversed range rotated by the state.
\<close>

definition toy_random :: "nat np_random" where
  "toy_random =
     \<lparr>np_random_seed = (\<lambda>v g. case integral v of None \<Rightarrow> Suc g | Some i \<Rightarrow> nat \<bar>i\<bar>),
      np_random_permutation = (\<lambda>n g. (rotate g (rev [0..<n]), Suc g))\<rparr>"

text \<open>An object that the constructor accepts, \<open>KFold(3, True, 2)\<close>, in a fresh generator state.\<close>

definition toy_state :: "nat state" where
  "toy_state =
     \<lparr>self = \<lparr>n_splits = PyInt 3, shuffle = PyBool True, random_state = PyInt 2\<rparr>,
      np_state = 0\<rparr>"

text \<open>
  Objects that the constructor accepts and whose seed numpy refuses: \<open>KFold(3, True, -1)\<close>
  and \<open>KFold(5, True, 2**32)\<close>.
\<close>

definition negative_seed :: KFold where
  "negative_seed = \<lparr>n_splits = PyInt 3, shuffle = PyBool True, random_state = PyInt (- 1)\<rparr>"

definition large_seed :: KFold where
  "large_seed = \<lparr>n_splits = PyInt 5, shuffle = PyBool True, random_state = PyInt 4294967296\<rparr>"

section \<open>The constructor\<close>

text \<open>What a successful construction tells about the arguments and the object.\<close>

lemma init_Inr:
  "init a b c = Inr k \<Longrightarrow>
     (\<exists>i. a = PyInt i \<and> 2 \<le> i) \<and> b = PyBool True \<and> isinstance_Integral c
     \<and> k = \<lparr>n_splits = a, shuffle = b, random_state = c\<rparr>"
  by (cases a; cases b; cases c) (auto simp: init_def split: if_splits)

lemma init_absent_seed: "\<exists>m. init a b PyNone = Inl (ValueError m)"
  by (auto simp: init_def split: option.splits)

text \<open>
  C5. The claim: for every integer \<open>fold_count \<ge> 2\<close>, construction with shuffling
  disabled and the seed absent succeeds. The code does not do that: the check of line 56
  asks \<open>random_state\<close> to be an integer whatever \<open>shuffle\<close> is, and \<open>None\<close> is not
  one, so the documented defaults \<open>KFold(5, False, None)\<close> raise \<open>ValueError\<close>.
\<close>

theorem init_defaults_rejected:
  "init (PyInt 5) (PyBool False) PyNone = Inl (ValueError Random_state_not_integer)"
  by (simp add: init_def)

text \<open>
  C6. Construction raises \<open>ValueError\<close>, and so returns no object, when \<open>n_splits\<close> is
  not an integer, when it is an integer below 2, when \<open>shuffle\<close> is not a boolean, and
  when a seed is given while \<open>shuffle\<close> is false; so it does for \<open>n_splits = 1\<close>,
  \<open>n_splits = "5"\<close>, \<open>shuffle = "yes"\<close>, and \<open>random_state = 3\<close> without shuffling.
\<close>

theorem init_rejects:
  "(\<not> isinstance_Integral a \<longrightarrow> init a b c = Inl (ValueError Folds_not_integer))
   \<and> ((\<exists>k. integral a = Some k \<and> k < 2) \<longrightarrow> init a b c = Inl (ValueError Folds_too_few))
   \<and> (\<not> isinstance_bool b \<longrightarrow> (\<exists>m. init a b c = Inl (ValueError m)))
   \<and> (c \<noteq> PyNone \<and> b = PyBool False \<longrightarrow> (\<exists>m. init a b c = Inl (ValueError m)))"
  by (auto simp: init_def split: option.splits)

theorem init_rejects_witness:
  "init (PyStr ''5'') (PyBool False) PyNone = Inl (ValueError Folds_not_integer)
   \<and> init (PyInt 1) (PyBool False) PyNone = Inl (ValueError Folds_too_few)
   \<and> (\<exists>m. init (PyInt 5) (PyStr ''yes'') PyNone = Inl (ValueError m))
   \<and> (\<exists>m. init (PyInt 5) (PyBool False) (PyInt 3) = Inl (ValueError m))"
  using init_rejects [of "PyStr ''5''" "PyBool False" PyNone]
    init_rejects [of "PyInt 1" "PyBool False" PyNone]
    init_rejects [of "PyInt 5" "PyStr ''yes''" PyNone]
    init_rejects [of "PyInt 5" "PyBool False" "PyInt 3"]
  by simp

section \<open>Masks, slices and fold sizes\<close>

lemma fold_update_length: "length (fold (\<lambda>i m. m[i := True]) idx m) = length m"
  by (induction idx arbitrary: m) simp_all

lemma fold_update_nth:
  "j < length m \<Longrightarrow> fold (\<lambda>i m. m[i := True]) idx m ! j = (m ! j \<or> j \<in> set idx)"
proof (induction idx arbitrary: m)
  case Nil
  show ?case by simp
next
  case (Cons a idx)
  from Cons.prems have "fold (\<lambda>i m. m[i := True]) idx (m[a := True]) ! j
      = (m[a := True] ! j \<or> j \<in> set idx)"
    by (intro Cons.IH) simp
  moreover from Cons.prems have "m[a := True] ! j = (m ! j \<or> j = a)"
    by (cases "a = j") auto
  ultimately show ?case by auto
qed

lemma set_mask_in_range:
  assumes "list_all (\<lambda>i. i < n) c"
  shows "set_mask (replicate n False) c = Inr (map (\<lambda>i. i \<in> set c) [0..<n])"
proof -
  have "fold (\<lambda>i m. m[i := True]) c (replicate n False) = map (\<lambda>i. i \<in> set c) [0..<n]"
    by (rule nth_equalityI) (simp_all add: fold_update_length fold_update_nth)
  with assms show ?thesis by (simp add: set_mask_def)
qed

lemma set_mask_length: "set_mask m c = Inr m' \<Longrightarrow> length m' = length m"
  by (auto simp: set_mask_def fold_update_length split: if_splits)

lemma mask_select_upt:
  "mask_select [0..<length m] m = filter (\<lambda>i. m ! i) [0..<length m]"
proof (induction m rule: rev_induct)
  case Nil
  show ?case by (simp add: mask_select_def)
next
  case (snoc b m)
  have "filter (\<lambda>i. (m @ [b]) ! i) [0..<length m] = filter (\<lambda>i. m ! i) [0..<length m]"
    by (rule filter_cong) (simp_all add: nth_append)
  with snoc show ?case by (simp add: mask_select_def)
qed

lemma slice_in_range: "list_all P xs \<Longrightarrow> list_all P (slice xs a b)"
  unfolding slice_def list_all_iff by (meson in_set_dropD in_set_takeD)

lemma iter_folds_chunks:
  "list_all (\<lambda>i. i < n) indices \<Longrightarrow>
   iter_folds indices n cur sizes =
     (map (\<lambda>c. map (\<lambda>i. i \<in> set c) [0..<n]) (chunks indices cur sizes), None)"
  by (induction sizes arbitrary: cur) (simp_all add: set_mask_in_range slice_in_range Let_def)

lemma iter_folds_length:
  "m \<in> set (fst (iter_folds indices n cur sizes)) \<Longrightarrow> length m = n"
proof (induction sizes arbitrary: cur)
  case Nil
  then show ?case by simp
next
  case (Cons s sizes)
  show ?case
  proof (cases "set_mask (replicate n False) (slice indices cur (cur + s))")
    case (Inl e)
    with Cons.prems show ?thesis by (simp add: Let_def)
  next
    case (Inr msk)
    then have len: "length msk = n" by (auto dest: set_mask_length)
    from Cons.prems Inr have "m = msk \<or> m \<in> set (fst (iter_folds indices n (cur + s) sizes))"
      by (auto simp: Let_def split: prod.splits)
    with len Cons.IH show ?thesis by blast
  qed
qed

lemma length_chunks: "length (chunks xs cur ss) = length ss"
  by (induction ss arbitrary: cur) simp_all

lemma concat_chunks: "concat (chunks xs cur ss) = take (sum_list ss) (drop cur xs)"
proof (induction ss arbitrary: cur)
  case Nil
  show ?case by simp
next
  case (Cons s ss)
  have "take (s + sum_list ss) (drop cur xs) = take s (drop cur xs) @ take (sum_list ss) (drop (cur + s) xs)"
    by (simp add: take_add add.commute)
  with Cons show ?case by (simp add: slice_def)
qed

lemma map_length_chunks:
  "cur + sum_list ss \<le> length xs \<Longrightarrow> map length (chunks xs cur ss) = ss"
  by (induction ss arbitrary: cur) (simp_all add: slice_def)

lemma fold_sizes_eq:
  "0 < k \<Longrightarrow> fold_sizes k n = replicate (n mod k) (Suc (n div k)) @ replicate (k - n mod k) (n div k)"
  by (simp add: fold_sizes_def Let_def min_def)

lemma length_fold_sizes: "0 < k \<Longrightarrow> length (fold_sizes k n) = k"
  by (simp add: fold_sizes_eq less_imp_le)

lemma sum_fold_sizes: "0 < k \<Longrightarrow> sum_list (fold_sizes k n) = n"
proof -
  assume "0 < k"
  then have "n mod k \<le> k" by (simp add: less_imp_le)
  then have "n mod k * Suc (n div k) + (k - n mod k) * (n div k) = n mod k + k * (n div k)"
    by (simp add: algebra_simps flip: add_mult_distrib)
  with \<open>0 < k\<close> show ?thesis by (simp add: fold_sizes_eq sum_list_replicate)
qed


section \<open>What \<open>split\<close> computes\<close>

lemma mask_select_map:
  "mask_select [0..<n] (map f [0..<n]) = filter f [0..<n]"
proof -
  have "mask_select [0..<n] (map f [0..<n]) = filter (\<lambda>i. map f [0..<n] ! i) [0..<n]"
    using mask_select_upt [of "map f [0..<n]"] by simp
  also have "\<dots> = filter f [0..<n]"
    by (rule filter_cong) simp_all
  finally show ?thesis .
qed

lemma base_order_perm:
  "permutes_range rng \<Longrightarrow> mset (base_order rng n st) = mset [0..<n]"
  by (simp add: base_order_def permutes_range_def arange_def)

lemma base_order_no_shuffle:
  "\<not> truth (shuffle (self st)) \<Longrightarrow> base_order rng n st = [0..<n]"
  by (simp add: base_order_def arange_def)

lemma perm_facts:
  assumes "mset xs = mset [0..<n]"
  shows "set xs = {0..<n}" and "distinct xs" and "length xs = n"
proof -
  from assms show "set xs = {0..<n}" by (metis mset_eq_setD set_upt)
  from assms show "distinct xs" by (metis distinct_upt mset_eq_imp_distinct_iff)
  from assms show "length xs = n" by (metis mset_eq_length length_upt diff_zero)
qed

lemma np_seed_accepted:
  "seed_accepted v \<Longrightarrow> np_seed rng v g = Inr (np_random_seed rng v g)"
  by (auto simp: seed_accepted_def np_seed_def split: option.splits)

lemma np_seed_refused:
  "\<not> seed_accepted v \<Longrightarrow> \<exists>e. np_seed rng v g = Inl e"
  by (auto simp: seed_accepted_def np_seed_def split: option.splits)

lemma split_chunks:
  assumes "integral (n_splits (self st)) = Some k" and "0 < k" and "k \<le> int n"
    and "list_all (\<lambda>i. i < n) (base_order rng n st)"
    and "truth (shuffle (self st)) \<longrightarrow> seed_accepted (random_state (self st))"
  shows "fst (split rng n st) =
    (map (\<lambda>c. (filter (\<lambda>i. i \<notin> set c) [0..<n], filter (\<lambda>i. i \<in> set c) [0..<n]))
       (chunks (base_order rng n st) 0 (fold_sizes (nat k) n)), None)"
proof -
  obtain indices g where ig: "(if truth (shuffle (self st))
            then np_random_permutation rng n
                   (np_random_seed rng (random_state (self st)) (np_state st))
            else (arange n, np_state st)) = (indices, g)"
    by (meson surj_pair)
  then have b: "base_order rng n st = indices" by (simp add: base_order_def)
  have it: "iter_test_indices rng n st =
     (iter_folds indices n 0 (fold_sizes (nat k) n), st\<lparr>np_state := g\<rparr>)"
    using assms(1,2,5) ig by (auto simp: iter_test_indices_def np_seed_accepted)
  show ?thesis
    using assms(1,3,4) unfolding b split_def it
    by (simp add: Let_def iter_folds_chunks arange_def mask_select_map comp_def)
qed

lemma mset_rotate: "mset (rotate k xs) = mset xs"
proof -
  have "mset (drop j xs) + mset (take j xs) = mset xs" for j
    by (metis add.commute append_take_drop_id mset_append)
  then show ?thesis by (simp add: rotate_drop_take)
qed

lemma toy_permutes: "permutes_range toy_random"
  by (simp add: permutes_range_def toy_random_def mset_rotate del: mset_upt)

lemma toy_resets: "seed_resets toy_random"
  by (auto simp: seed_resets_def toy_random_def)

lemma split_self: "self (snd (split rng n st)) = self st"
  by (auto simp: split_def iter_test_indices_def Let_def
      split: option.splits prod.splits sum.splits if_splits)

lemma iter_folds_length':
  "iter_folds indices n cur sizes = (masks, e) \<Longrightarrow> m \<in> set masks \<Longrightarrow> length m = n"
  using iter_folds_length [of m indices n cur sizes] by simp

lemma iter_test_indices_length:
  "iter_test_indices rng n st = ((masks, e), st') \<Longrightarrow> m \<in> set masks \<Longrightarrow> length m = n"
  by (auto simp: iter_test_indices_def split: option.splits prod.splits sum.splits if_splits
      dest: iter_folds_length')

lemma split_pairs_form:
  assumes "p \<in> set (fst (fst (split rng n st)))"
  shows "\<exists>m. length m = n \<and> p = (mask_select [0..<n] (map Not m), mask_select [0..<n] m)"
  using assms
  by (auto simp: split_def Let_def arange_def split: option.splits prod.splits if_splits
      dest: iter_test_indices_length)

lemma unique_index_concat:
  "distinct (concat xss) \<Longrightarrow> x \<in> set (concat xss) \<Longrightarrow> \<exists>!j. j < length xss \<and> x \<in> set (xss ! j)"
proof (induction xss)
  case Nil
  then show ?case by simp
next
  case (Cons ys xss)
  from Cons.prems(1) have d: "distinct (concat xss)" and disj: "set ys \<inter> set (concat xss) = {}"
    by simp_all
  have later: "x \<in> set (concat xss)" if "j < length xss" "x \<in> set (xss ! j)" for j
    using that by (auto intro: nth_mem)
  show ?case
  proof (cases "x \<in> set ys")
    case True
    with disj have "x \<notin> set (concat xss)" by blast
    with later have no: "\<not> (j < length xss \<and> x \<in> set (xss ! j))" for j by blast
    show ?thesis
    proof (rule ex1I [of _ 0])
      show "0 < length (ys # xss) \<and> x \<in> set ((ys # xss) ! 0)" using True by simp
    next
      fix j assume "j < length (ys # xss) \<and> x \<in> set ((ys # xss) ! j)"
      with no show "j = 0" by (cases j) auto
    qed
  next
    case False
    with Cons.prems(2) have "x \<in> set (concat xss)" by simp
    from Cons.IH [OF d this] obtain j0 where j0: "j0 < length xss" "x \<in> set (xss ! j0)"
      and uniq: "\<And>j. j < length xss \<Longrightarrow> x \<in> set (xss ! j) \<Longrightarrow> j = j0"
      by blast
    show ?thesis
    proof (rule ex1I [of _ "Suc j0"])
      show "Suc j0 < length (ys # xss) \<and> x \<in> set ((ys # xss) ! Suc j0)" using j0 by simp
    next
      fix j assume a: "j < length (ys # xss) \<and> x \<in> set ((ys # xss) ! j)"
      with False obtain j' where "j = Suc j'" by (cases j) auto
      with a uniq show "j = Suc j0" by auto
    qed
  qed
qed

lemma filter_mem_sort:
  assumes "distinct c" and "set c \<subseteq> {0..<n}"
  shows "filter (\<lambda>i. i \<in> set c) [0..<n] = sort c"
proof (rule sorted_distinct_set_unique)
  show "sorted (filter (\<lambda>i. i \<in> set c) [0..<n])" by (simp add: sorted_wrt_filter)
  show "distinct (filter (\<lambda>i. i \<in> set c) [0..<n])" by simp
  show "sorted (sort c)" by simp
  show "distinct (sort c)" using assms(1) by simp
  show "set (filter (\<lambda>i. i \<in> set c) [0..<n]) = set (sort c)" using assms(2) by auto
qed

text \<open>The run of split on a base order that is a permutation.\<close>

lemma split_run:
  assumes k: "integral (n_splits (self st)) = Some k" "0 < k" "k \<le> int n"
    and perm: "mset (base_order rng n st) = mset [0..<n]"
    and seed: "truth (shuffle (self st)) \<longrightarrow> seed_accepted (random_state (self st))"
  defines "cs \<equiv> chunks (base_order rng n st) 0 (fold_sizes (nat k) n)"
  shows "fst (split rng n st) =
      (map (\<lambda>c. (filter (\<lambda>i. i \<notin> set c) [0..<n], sort c)) cs, None)"
    and "length cs = nat k"
    and "concat cs = base_order rng n st"
    and "map length cs = fold_sizes (nat k) n"
proof -
  note pf = perm_facts [OF perm]
  have kpos: "0 < nat k" using k(2) by simp
  have inr: "list_all (\<lambda>i. i < n) (base_order rng n st)"
    by (simp add: list_all_iff pf(1))
  show len: "length cs = nat k"
    by (simp add: cs_def length_chunks length_fold_sizes [OF kpos])
  show cc: "concat cs = base_order rng n st"
    by (simp add: cs_def concat_chunks sum_fold_sizes [OF kpos] pf(3))
  show "map length cs = fold_sizes (nat k) n"
    unfolding cs_def by (rule map_length_chunks) (simp add: sum_fold_sizes [OF kpos] pf(3))
  have each: "filter (\<lambda>i. i \<in> set c) [0..<n] = sort c" if "c \<in> set cs" for c
  proof (rule filter_mem_sort)
    from pf(2) have "distinct (concat cs)" by (simp add: cc)
    with that show "distinct c" by (simp add: distinct_concat_iff)
    from that have "set c \<subseteq> set (concat cs)" by auto
    then show "set c \<subseteq> {0..<n}" by (simp add: cc pf(1))
  qed
  have "fst (split rng n st) =
      (map (\<lambda>c. (filter (\<lambda>i. i \<notin> set c) [0..<n], filter (\<lambda>i. i \<in> set c) [0..<n])) cs, None)"
    unfolding cs_def by (rule split_chunks [OF k inr seed])
  also have "map (\<lambda>c. (filter (\<lambda>i. i \<notin> set c) [0..<n], filter (\<lambda>i. i \<in> set c) [0..<n])) cs
      = map (\<lambda>c. (filter (\<lambda>i. i \<notin> set c) [0..<n], sort c)) cs"
    by (rule map_cong) (simp_all add: each)
  finally show "fst (split rng n st) =
      (map (\<lambda>c. (filter (\<lambda>i. i \<notin> set c) [0..<n], sort c)) cs, None)" .
qed

lemma card_all_but_one:
  assumes "j0 < m" and "\<And>j. j < m \<Longrightarrow> P j \<longleftrightarrow> j \<noteq> j0"
  shows "card {j. j < m \<and> P j} = m - 1"
proof -
  have "{j. j < m \<and> P j} = {..<m} - {j0}"
    using assms(2) by auto
  with assms(1) show ?thesis by simp
qed

lemma init_integral:
  assumes "init a b c = Inr (self st)"
  shows "\<exists>k. integral (n_splits (self st)) = Some k \<and> integral a = Some k \<and> 2 \<le> k"
    and "truth (shuffle (self st))" and "isinstance_Integral (random_state (self st))"
    and "n_splits (self st) = a" and "shuffle (self st) = b" and "random_state (self st) = c"
proof -
  from init_Inr [OF assms] obtain i where a: "a = PyInt i" "2 \<le> i" and b: "b = PyBool True"
    and c: "isinstance_Integral c"
    and s: "self st = \<lparr>n_splits = a, shuffle = b, random_state = c\<rparr>"
    by blast
  show "\<exists>k. integral (n_splits (self st)) = Some k \<and> integral a = Some k \<and> 2 \<le> k"
    using a by (simp add: s)
  show "truth (shuffle (self st))" by (simp add: s b)
  show "isinstance_Integral (random_state (self st))" using c by (simp add: s)
  show "n_splits (self st) = a" "shuffle (self st) = b" "random_state (self st) = c"
    by (simp_all add: s)
qed

lemma split_too_many:
  "integral (n_splits (self st)) = Some k \<Longrightarrow> int n < k \<Longrightarrow>
     split rng n st = (([], Some (ValueError Splits_exceed_samples)), st)"
  by (simp add: split_def)

lemma split_sizes:
  assumes "integral (n_splits (self st)) = Some k" and "0 < k" and "k \<le> int n"
    and "permutes_range rng"
    and "truth (shuffle (self st)) \<longrightarrow> seed_accepted (random_state (self st))"
  shows "map (\<lambda>p. length (snd p)) (fst (fst (split rng n st))) = fold_sizes (nat k) n"
    and "snd (fst (split rng n st)) = None"
    and "length (fst (fst (split rng n st))) = nat k"
proof -
  have perm: "mset (base_order rng n st) = mset [0..<n]"
    using assms(4) by (rule base_order_perm)
  note run = split_run [OF assms(1-3) perm assms(5)]
  have "map (\<lambda>p. length (snd p)) (fst (fst (split rng n st)))
      = map length (chunks (base_order rng n st) 0 (fold_sizes (nat k) n))"
    unfolding run(1) by (simp add: comp_def)
  then show "map (\<lambda>p. length (snd p)) (fst (fst (split rng n st))) = fold_sizes (nat k) n"
    by (simp only: run(4))
  show "snd (fst (split rng n st)) = None" unfolding run(1) by simp
  show "length (fst (fst (split rng n st))) = nat k" unfolding run(1) by (simp add: run(2))
qed

lemma iter_test_indices_seeded:
  assumes "truth (shuffle (self st))" and "isinstance_Integral (random_state (self st))"
    and "self st' = self st" and "seed_resets rng"
  shows "fst (iter_test_indices rng n st') = fst (iter_test_indices rng n st)"
proof -
  from assms(2,4) have "np_random_seed rng (random_state (self st)) (np_state st')
      = np_random_seed rng (random_state (self st)) (np_state st)"
    unfolding seed_resets_def by blast
  then have "np_seed rng (random_state (self st)) (np_state st')
      = np_seed rng (random_state (self st)) (np_state st)"
    by (auto simp: np_seed_def split: option.splits)
  then show ?thesis
    using assms(1)
    by (simp add: iter_test_indices_def assms(3) split: prod.splits option.splits sum.splits)
qed

lemma toy_state_constructed: "init (PyInt 3) (PyBool True) (PyInt 2) = Inr (self toy_state)"
  by (simp add: init_def toy_state_def)

lemma toy_state_seed:
  "truth (shuffle (self toy_state)) \<longrightarrow> seed_accepted (random_state (self toy_state))"
  "seed_accepted (PyInt 2)"
  by (simp_all add: toy_state_def seed_accepted_def)

lemma init_negative_seed: "init (PyInt 3) (PyBool True) (PyInt (- 1)) = Inr negative_seed"
  by (simp add: init_def negative_seed_def)

lemma init_large_seed: "init (PyInt 5) (PyBool True) (PyInt 4294967296) = Inr large_seed"
  by (simp add: init_def large_seed_def)

lemma toy_state_folds:
  "integral (n_splits (self toy_state)) = Some 3" "(0::int) < 3" "(3::int) \<le> int 7"
  by (simp_all add: toy_state_def)

section \<open>The claims about \<open>split\<close>\<close>

text \<open>
  C2. Every pair \<open>(train_indices, test_indices)\<close> that \<open>split\<close> yields on \<open>n\<close> samples
  has both sequences in strictly ascending order, disjoint, and with union
  \<open>{0, \<dots>, n - 1}\<close>. This needs nothing of the object or of the generator: it holds for
  every fold, with and without shuffling.
\<close>

theorem split_pair_complement:
  assumes "(train_indices, test_indices) \<in> set (fst (fst (split rng n st)))"
  shows "sorted_wrt (<) test_indices \<and> sorted_wrt (<) train_indices
    \<and> set train_indices \<inter> set test_indices = {}
    \<and> set train_indices \<union> set test_indices = {0..<n}"
proof -
  from split_pairs_form [OF assms] obtain m where len: "length m = n"
    and tr: "train_indices = mask_select [0..<n] (map Not m)"
    and te: "test_indices = mask_select [0..<n] m"
    by auto
  have te': "test_indices = filter (\<lambda>i. m ! i) [0..<n]"
    using mask_select_upt [of m] len te by simp
  have "train_indices = filter (\<lambda>i. map Not m ! i) [0..<n]"
    using mask_select_upt [of "map Not m"] len tr by simp
  also have "\<dots> = filter (\<lambda>i. \<not> m ! i) [0..<n]"
    using len by (intro filter_cong) simp_all
  finally have tr': "train_indices = filter (\<lambda>i. \<not> m ! i) [0..<n]" .
  have "sorted_wrt (<) test_indices" "sorted_wrt (<) train_indices"
    unfolding te' tr' by (simp_all add: sorted_wrt_filter)
  moreover have "set train_indices \<inter> set test_indices = {}"
    unfolding te' tr' by auto
  moreover have "set train_indices \<union> set test_indices = {0..<n}"
    unfolding te' tr' by auto
  ultimately show ?thesis by simp
qed

theorem split_pair_complement_witness:
  "([0, 1, 5, 6], [2, 3, 4]) \<in> set (fst (fst (split toy_random 7
       \<lparr>self = \<lparr>n_splits = PyInt 3, shuffle = PyBool True, random_state = PyInt 2\<rparr>,
        np_state = 0\<rparr>)))
   \<and> sorted_wrt (<) [2, 3, 4 :: nat] \<and> sorted_wrt (<) [0, 1, 5, 6 :: nat]
   \<and> set [0, 1, 5, 6] \<inter> set [2, 3, 4] = ({} :: nat set)
   \<and> set [0, 1, 5, 6] \<union> set [2, 3, 4] = {0..<7 :: nat}"
proof -
  have run: "fst (split toy_random 7
       \<lparr>self = \<lparr>n_splits = PyInt 3, shuffle = PyBool True, random_state = PyInt 2\<rparr>,
        np_state = 0\<rparr>)
     = ([([0, 1, 5, 6], [2, 3, 4]), ([2, 3, 4, 5, 6], [0, 1]), ([0, 1, 2, 3, 4], [5, 6])], None)"
    by code_simp
  have mem: "([0, 1, 5, 6], [2, 3, 4]) \<in> set (fst (fst (split toy_random 7
       \<lparr>self = \<lparr>n_splits = PyInt 3, shuffle = PyBool True, random_state = PyInt 2\<rparr>,
        np_state = 0\<rparr>)))"
    unfolding run by simp
  from mem split_pair_complement [OF mem] show ?thesis by blast
qed

text \<open>
  C1, as amended. For an object whose \<open>n_splits\<close> is an integer \<open>k\<close> with
  \<open>0 < k \<le> n\<close> (by \<open>init_Inr\<close> every constructed object has \<open>2 \<le> k\<close>), whose seed
  numpy accepts when it shuffles, and a generator whose permutations are permutations,
  \<open>split\<close> ends without an exception after exactly \<open>k\<close> pairs; the test indices of
  pair \<open>j\<close> are the \<open>j\<close>-th chunk of the base order, sorted
  (fold order); the test sequences together hold every index of \<open>[0, n)\<close> exactly once,
  so every index is a test index of exactly one pair, and a train index of exactly
  \<open>k - 1\<close> pairs. Nothing is asked of \<open>shuffle\<close>: the statement covers both branches.
\<close>

theorem split_partition:
  assumes "integral (n_splits (self st)) = Some k" and "0 < k" and "k \<le> int n"
    and "permutes_range rng"
    and "truth (shuffle (self st)) \<longrightarrow> seed_accepted (random_state (self st))"
  shows "\<exists>pairs. fst (split rng n st) = (pairs, None) \<and> length pairs = nat k
     \<and> (\<forall>j<nat k. snd (pairs ! j) = sort (chunks (base_order rng n st) 0 (fold_sizes (nat k) n) ! j))
     \<and> mset (concat (map snd pairs)) = mset [0..<n]
     \<and> (\<forall>i<n. (\<exists>!j. j < nat k \<and> i \<in> set (snd (pairs ! j)))
           \<and> card {j. j < nat k \<and> i \<in> set (fst (pairs ! j))} = nat k - 1)"
proof -
  define cs where "cs = chunks (base_order rng n st) 0 (fold_sizes (nat k) n)"
  define pairs where "pairs = map (\<lambda>c. (filter (\<lambda>i. i \<notin> set c) [0..<n], sort c)) cs"
  have perm: "mset (base_order rng n st) = mset [0..<n]"
    using assms(4) by (rule base_order_perm)
  note run = split_run [OF assms(1-3) perm assms(5), folded cs_def]
  note pf = perm_facts [OF perm]
  have res: "fst (split rng n st) = (pairs, None)"
    unfolding pairs_def by (rule run(1))
  have lcs: "length cs = nat k" by (rule run(2))
  have len: "length pairs = nat k"
    unfolding pairs_def length_map by (rule lcs)
  have test: "snd (pairs ! j) = sort (cs ! j)" if "j < nat k" for j
  proof -
    from that have "j < length cs" by (simp only: lcs)
    then show ?thesis unfolding pairs_def by simp
  qed
  have train: "fst (pairs ! j) = filter (\<lambda>i. i \<notin> set (cs ! j)) [0..<n]" if "j < nat k" for j
  proof -
    from that have "j < length cs" by (simp only: lcs)
    then show ?thesis unfolding pairs_def by simp
  qed
  have "map snd pairs = map sort cs"
    unfolding pairs_def by simp
  then have "mset (concat (map snd pairs)) = mset (concat cs)"
    by (simp add: mset_concat comp_def)
  then have cover: "mset (concat (map snd pairs)) = mset [0..<n]"
    by (simp only: run(3) perm)
  have dist: "distinct (concat cs)" by (simp only: run(3) pf(2))
  have part: "(\<exists>!j. j < nat k \<and> i \<in> set (snd (pairs ! j)))
      \<and> card {j. j < nat k \<and> i \<in> set (fst (pairs ! j))} = nat k - 1" if "i < n" for i
  proof -
    from that have "i \<in> set (concat cs)" by (simp only: run(3) pf(1)) simp
    from unique_index_concat [OF dist this] obtain j0
      where j0: "j0 < nat k" "i \<in> set (cs ! j0)"
        and uniq: "\<And>j. j < nat k \<Longrightarrow> i \<in> set (cs ! j) \<Longrightarrow> j = j0"
      unfolding lcs by blast
    have one: "\<exists>!j. j < nat k \<and> i \<in> set (snd (pairs ! j))"
    proof (rule ex1I [of _ j0])
      show "j0 < nat k \<and> i \<in> set (snd (pairs ! j0))"
        using j0 unfolding test [OF j0(1)] by simp
    next
      fix j assume "j < nat k \<and> i \<in> set (snd (pairs ! j))"
      then have jk: "j < nat k" and "i \<in> set (snd (pairs ! j))" by blast+
      then have "i \<in> set (cs ! j)" unfolding test [OF jk] by simp
      with jk show "j = j0" by (rule uniq)
    qed
    have "card {j. j < nat k \<and> i \<in> set (fst (pairs ! j))} = nat k - 1"
    proof (rule card_all_but_one [OF j0(1)])
      fix j assume jk: "j < nat k"
      have "i \<in> set (fst (pairs ! j)) \<longleftrightarrow> i \<notin> set (cs ! j)"
        unfolding train [OF jk] using that by simp
      also have "\<dots> \<longleftrightarrow> j \<noteq> j0"
        using uniq [OF jk] j0(2) by blast
      finally show "i \<in> set (fst (pairs ! j)) \<longleftrightarrow> j \<noteq> j0" .
    qed
    with one show ?thesis by (rule conjI)
  qed
  show ?thesis
  proof (intro exI conjI allI impI)
    show "fst (split rng n st) = (pairs, None)" by (rule res)
    show "length pairs = nat k" by (rule len)
    show "snd (pairs ! j) = sort (chunks (base_order rng n st) 0 (fold_sizes (nat k) n) ! j)"
      if "j < nat k" for j using test [OF that] unfolding cs_def .
    show "mset (concat (map snd pairs)) = mset [0..<n]" by (rule cover)
    show "\<exists>!j. j < nat k \<and> i \<in> set (snd (pairs ! j))" if "i < n" for i
      using part [OF that] by (rule conjunct1)
    show "card {j. j < nat k \<and> i \<in> set (fst (pairs ! j))} = nat k - 1" if "i < n" for i
      using part [OF that] by (rule conjunct2)
  qed
qed

theorem split_partition_witness:
  "integral (n_splits (self toy_state)) = Some 3 \<and> permutes_range toy_random
   \<and> (\<exists>pairs. fst (split toy_random 7 toy_state) = (pairs, None) \<and> length pairs = nat 3
     \<and> (\<forall>j<nat 3. snd (pairs ! j)
            = sort (chunks (base_order toy_random 7 toy_state) 0 (fold_sizes (nat 3) 7) ! j))
     \<and> mset (concat (map snd pairs)) = mset [0..<7]
     \<and> (\<forall>i<7. (\<exists>!j. j < nat 3 \<and> i \<in> set (snd (pairs ! j)))
           \<and> card {j. j < nat 3 \<and> i \<in> set (fst (pairs ! j))} = nat 3 - 1))"
  using toy_state_folds(1) toy_permutes
    split_partition [OF toy_state_folds toy_permutes toy_state_seed(1)]
  by (intro conjI)

text \<open>
  C1 as it is stated fails: the constructor accepts \<open>KFold(3, True, -1)\<close>, and on 7
  samples, where \<open>3 \<le> 7\<close>, \<open>split\<close> raises the \<open>ValueError\<close> of \<open>np.random.seed\<close> before
  it yields any pair.
\<close>

theorem split_partition_counterexample:
  "init (PyInt 3) (PyBool True) (PyInt (- 1)) = Inr negative_seed
   \<and> (3 :: int) \<le> int 7 \<and> permutes_range toy_random
   \<and> fst (split toy_random 7 \<lparr>self = negative_seed, np_state = 0\<rparr>)
       = ([], Some (ValueError Seed_out_of_range))"
proof -
  have "fst (split toy_random 7 \<lparr>self = negative_seed, np_state = 0\<rparr>)
      = ([], Some (ValueError Seed_out_of_range))"
    by code_simp
  with init_negative_seed toy_permutes show ?thesis by simp
qed




text \<open>
  C4, as amended. For a constructed object with \<open>k\<close> folds and a seed that numpy
  accepts, \<open>split\<close> on \<open>n\<close> samples ends with an exception exactly when \<open>k > n\<close>; then it is the \<open>ValueError\<close> of line 97 and no pair
  was yielded before it; when \<open>k \<le> n\<close> it yields exactly \<open>k\<close> pairs and no exception.
\<close>

theorem split_fails_iff:
  assumes "init a b c = Inr (self st)" and "integral a = Some k" and "permutes_range rng"
    and "seed_accepted c"
  shows "((\<exists>e. snd (fst (split rng n st)) = Some e) \<longleftrightarrow> int n < k)
    \<and> (int n < k \<longrightarrow> fst (split rng n st) = ([], Some (ValueError Splits_exceed_samples)))
    \<and> (k \<le> int n \<longrightarrow> snd (fst (split rng n st)) = None
          \<and> length (fst (fst (split rng n st))) = nat k)"
proof -
  from init_integral(1) [OF assms(1)] assms(2)
  have k: "integral (n_splits (self st)) = Some k" and k2: "2 \<le> k" by auto
  then have kpos: "0 < k" by simp
  have seed: "truth (shuffle (self st)) \<longrightarrow> seed_accepted (random_state (self st))"
    using init_integral(6) [OF assms(1)] assms(4) by simp
  show ?thesis
  proof (cases "int n < k")
    case True
    with split_too_many [OF k True, of rng] show ?thesis by simp
  next
    case False
    then have le: "k \<le> int n" by simp
    from split_sizes(2,3) [OF k kpos le assms(3) seed] False show ?thesis by simp
  qed
qed

theorem split_fails_iff_witness:
  "init (PyInt 3) (PyBool True) (PyInt 2) = Inr (self toy_state)
   \<and> fst (split toy_random 2 toy_state) = ([], Some (ValueError Splits_exceed_samples))
   \<and> snd (fst (split toy_random 7 toy_state)) = None
   \<and> length (fst (fst (split toy_random 7 toy_state))) = 3"
  using toy_state_constructed
    split_fails_iff [OF toy_state_constructed _ toy_permutes toy_state_seed(2), of 3 2]
    split_fails_iff [OF toy_state_constructed _ toy_permutes toy_state_seed(2), of 3 7]
  by simp

text \<open>
  C4 as it is stated fails: for the constructed \<open>KFold(5, True, 2**32)\<close> on 7 samples the
  fold count does not exceed the sample count, and \<open>split\<close> raises \<open>ValueError\<close>.
\<close>

theorem split_fails_iff_counterexample:
  "init (PyInt 5) (PyBool True) (PyInt 4294967296) = Inr large_seed
   \<and> \<not> int 7 < 5
   \<and> snd (fst (split toy_random 7 \<lparr>self = large_seed, np_state = 0\<rparr>))
       = Some (ValueError Seed_out_of_range)"
proof -
  have "snd (fst (split toy_random 7 \<lparr>self = large_seed, np_state = 0\<rparr>))
      = Some (ValueError Seed_out_of_range)"
    by code_simp
  with init_large_seed show ?thesis by simp
qed

text \<open>
  C9, as amended. At the boundary \<open>n = fold_count\<close> a constructed object whose seed
  numpy accepts does not raise: \<open>split\<close> yields exactly \<open>n\<close> pairs, each with exactly one test index.
\<close>

theorem split_one_per_fold:
  assumes "init a b c = Inr (self st)" and "integral a = Some (int n)" and "permutes_range rng"
    and "seed_accepted c"
  shows "snd (fst (split rng n st)) = None \<and> length (fst (fst (split rng n st))) = n
    \<and> (\<forall>p \<in> set (fst (fst (split rng n st))). length (snd p) = 1)"
proof -
  from init_integral(1) [OF assms(1)] assms(2)
  have k: "integral (n_splits (self st)) = Some (int n)" and k2: "2 \<le> int n" by auto
  then have kpos: "0 < int n" and npos: "0 < n" by simp_all
  have seed: "truth (shuffle (self st)) \<longrightarrow> seed_accepted (random_state (self st))"
    using init_integral(6) [OF assms(1)] assms(4) by simp
  note s = split_sizes [OF k kpos order_refl assms(3) seed]
  have "fold_sizes n n = replicate n 1" using npos by (simp add: fold_sizes_eq)
  with s(1) have "map (\<lambda>p. length (snd p)) (fst (fst (split rng n st))) = replicate n 1"
    by simp
  then have "\<forall>p \<in> set (fst (fst (split rng n st))). length (snd p) = 1"
    by (metis (no_types, lifting) in_set_replicate image_eqI list.set_map)
  with s(2,3) show ?thesis by simp
qed

theorem split_one_per_fold_witness:
  "snd (fst (split toy_random 3 toy_state)) = None
   \<and> length (fst (fst (split toy_random 3 toy_state))) = 3
   \<and> list_all (\<lambda>p. length (snd p) = 1) (fst (fst (split toy_random 3 toy_state)))"
  using split_one_per_fold [OF toy_state_constructed _ toy_permutes toy_state_seed(2), of 3]
  by (simp add: list_all_iff)

text \<open>
  C9 as it is stated fails: for the constructed \<open>KFold(3, True, -1)\<close> on 3 samples
  \<open>split\<close> raises and yields no pair.
\<close>

theorem split_one_per_fold_counterexample:
  "init (PyInt 3) (PyBool True) (PyInt (- 1)) = Inr negative_seed
   \<and> integral (PyInt 3) = Some (int 3)
   \<and> fst (split toy_random 3 \<lparr>self = negative_seed, np_state = 0\<rparr>)
       = ([], Some (ValueError Seed_out_of_range))"
proof -
  have "fst (split toy_random 3 \<lparr>self = negative_seed, np_state = 0\<rparr>)
      = ([], Some (ValueError Seed_out_of_range))"
    by code_simp
  with init_negative_seed show ?thesis by simp
qed

text \<open>
  C8. A constructed object shuffles with an integer seed. If seeding the generator with
  an integer forgets its previous state, two invocations of \<open>split\<close> with the same
  \<open>n\<close> yield the same sequence of pairs, whatever the generator states they start in;
  so does a second invocation that follows the first.
\<close>

theorem split_reproducible:
  assumes "init a b c = Inr (self st)" and "self st' = self st" and "seed_resets rng"
  shows "fst (split rng n st') = fst (split rng n st)
    \<and> fst (split rng n (snd (split rng n st))) = fst (split rng n st)"
proof -
  note i = init_integral [OF assms(1)]
  have eq: "fst (split rng n s') = fst (split rng n st)" if "self s' = self st" for s'
  proof -
    have "fst (iter_test_indices rng n s') = fst (iter_test_indices rng n st)"
      using i(2,3) that assms(3) by (rule iter_test_indices_seeded)
    then show ?thesis
      by (auto simp: split_def that Let_def split: option.splits prod.splits)
  qed
  from eq [OF assms(2)] eq [OF split_self] show ?thesis by simp
qed

theorem split_reproducible_witness:
  "fst (split toy_random 7 (toy_state\<lparr>np_state := 5\<rparr>)) = fst (split toy_random 7 toy_state)
   \<and> fst (split toy_random 7 (snd (split toy_random 7 toy_state)))
       = fst (split toy_random 7 toy_state)"
  using split_reproducible [OF toy_state_constructed _ toy_resets,
      of "toy_state\<lparr>np_state := 5\<rparr>" 7]
  by simp

text \<open>
  C10. On a constructed object \<open>get_n_splits\<close> returns the \<open>n_splits\<close> given to the
  constructor and changes nothing of the state; \<open>split\<close>, whether it raises or not,
  leaves the object and so its three fields as the constructor stored them.
\<close>

theorem methods_keep_fields:
  assumes "init a b c = Inr (self st)"
  shows "fst (get_n_splits st) = a \<and> snd (get_n_splits st) = st
    \<and> self (snd (split rng n st)) = self st
    \<and> n_splits (self (snd (split rng n st))) = a
    \<and> shuffle (self (snd (split rng n st))) = b
    \<and> random_state (self (snd (split rng n st))) = c"
  using init_integral(4-6) [OF assms] by (simp add: get_n_splits_def split_self)

theorem methods_keep_fields_witness:
  "fst (get_n_splits toy_state) = PyInt 3 \<and> snd (get_n_splits toy_state) = toy_state
   \<and> self (snd (split toy_random 2 toy_state)) = self toy_state
   \<and> n_splits (self (snd (split toy_random 2 toy_state))) = PyInt 3
   \<and> shuffle (self (snd (split toy_random 2 toy_state))) = PyBool True
   \<and> random_state (self (snd (split toy_random 2 toy_state))) = PyInt 2"
  by (rule methods_keep_fields [OF toy_state_constructed])

text \<open>
  C7. Without shuffling, \<open>n = 10\<close> and 5 folds give the test sequences \<open>[0,1]\<close>,
  \<open>[2,3]\<close>, \<open>[4,5]\<close>, \<open>[6,7]\<close>, \<open>[8,9]\<close>, each with the ascending train sequence of the
  other 8 indices; \<open>n = 7\<close> and 3 folds give the fold sizes \<open>[3,2,2]\<close> and the test
  sequences \<open>[0,1,2]\<close>, \<open>[3,4]\<close>, \<open>[5,6]\<close>.
\<close>

theorem split_unshuffled_scenarios:
  "fst (split rng 10 \<lparr>self = \<lparr>n_splits = PyInt 5, shuffle = PyBool False, random_state = PyNone\<rparr>,
                       np_state = g\<rparr>)
     = ([([2, 3, 4, 5, 6, 7, 8, 9], [0, 1]), ([0, 1, 4, 5, 6, 7, 8, 9], [2, 3]),
         ([0, 1, 2, 3, 6, 7, 8, 9], [4, 5]), ([0, 1, 2, 3, 4, 5, 8, 9], [6, 7]),
         ([0, 1, 2, 3, 4, 5, 6, 7], [8, 9])], None)
   \<and> fold_sizes 3 7 = [3, 2, 2]
   \<and> fst (split rng 7 \<lparr>self = \<lparr>n_splits = PyInt 3, shuffle = PyBool False, random_state = PyNone\<rparr>,
                        np_state = g\<rparr>)
     = ([([3, 4, 5, 6], [0, 1, 2]), ([0, 1, 2, 5, 6], [3, 4]), ([0, 1, 2, 3, 4], [5, 6])], None)"
  by code_simp

end
